theory Spec2Isabelle
  imports Complex_Main "HOL-Library.Log_Nat"
begin

section \<open>react-gimbal: bounds resolution and the drag engine\<close>

text \<open>
  A shallow embedding of \<^verbatim>\<open>src/utils.ts\<close> and of the handlers of the \<^verbatim>\<open>Gimbal\<close>
  component in \<^verbatim>\<open>src/gimbal.tsx\<close>.

  Numbers. A TypeScript \<^verbatim>\<open>number\<close> is an IEEE double. Every finite double is a
  rational, so the carrier is \<open>rat\<close>, and \<open>fl\<close> rounds a rational to the nearest
  double, a tie to the even significand, with 53 bits of precision and the subnormal
  range below \<open>2^-1022\<close>. The helpers whose result depends on that rounding,
  \<^verbatim>\<open>getOffsets\<close>, \<^verbatim>\<open>getPixelsFromPercentage\<close> and \<^verbatim>\<open>getPercentageFromPixels\<close>,
  round after every operation, as the code does. The subtraction from the limit in
  \<^verbatim>\<open>getAbsoluteBounds\<close> and the arithmetic of the component on its measurements are
  written without rounding. \<^verbatim>\<open>NaN\<close>, the infinities and the overflow above the
  largest double are outside the model; the one operation of the source that leaves
  the finite numbers on finite operands, the division by \<^verbatim>\<open>limit\<close> in
  \<^verbatim>\<open>getPercentageFromPixels\<close>, returns \<open>None\<close> for a zero limit.

  Optional parameters and optional fields are \<open>option\<close> values: \<open>None\<close> is
  \<^verbatim>\<open>undefined\<close>, and a default parameter value is taken exactly when the argument
  is \<open>None\<close>.
\<close>

type_synonym number = rat

subsection \<open>Double arithmetic\<close>

text \<open>
  \<open>binade x\<close> is the exponent \<open>e\<close> with \<open>2^e \<le> \<bar>x\<bar> < 2^(e+1)\<close>, found from the
  bit lengths of the numerator and the denominator. \<open>ulp x\<close> is the distance between
  neighbouring doubles around \<open>x\<close>: \<open>2^(e-52)\<close>, and \<open>2^-1074\<close> throughout the
  subnormal range.
\<close>

definition binade :: "rat \<Rightarrow> int" where
  "binade x =
     (let k = bitlen (fst (quotient_of \<bar>x\<bar>)) - bitlen (snd (quotient_of \<bar>x\<bar>))
      in if 2 powi k \<le> \<bar>x\<bar> then k else k - 1)"

definition ulp :: "rat \<Rightarrow> rat" where
  "ulp x = 2 powi (max (binade x) (- 1022) - 52)"

definition round_even :: "rat \<Rightarrow> int" where
  "round_even y =
     (let f = \<lfloor>y\<rfloor>; d = y - of_int f
      in if d < 1 / 2 then f else if 1 / 2 < d then f + 1 else if even f then f else f + 1)"

definition fl :: "rat \<Rightarrow> rat" where
  "fl x = (if x = 0 then 0 else of_int (round_even (x / ulp x)) * ulp x)"

text \<open>Half of the smallest subnormal: the largest rounding error near zero.\<close>

definition eta :: rat where
  "eta = 1 / 2 ^ 1075"

definition js_add :: "number \<Rightarrow> number \<Rightarrow> number" where
  "js_add a b = fl (a + b)"

definition js_sub :: "number \<Rightarrow> number \<Rightarrow> number" where
  "js_sub a b = fl (a - b)"

definition js_mul :: "number \<Rightarrow> number \<Rightarrow> number" where
  "js_mul a b = fl (a * b)"

definition js_div :: "number \<Rightarrow> number \<Rightarrow> number" where
  "js_div a b = fl (a / b)"

subsection \<open>types.ts\<close>

datatype Prefer = Percent | Pixels

text \<open>\<^verbatim>\<open>Partial<IGimbalRule>\<close>: every field may be missing.\<close>

record IGimbalRule =
  percent :: "number option"
  pixels :: "number option"
  prefer' :: "Prefer option"

datatype Direction = Horizontal | Horizontal_reverse | Vertical | Vertical_reverse

text \<open>
  The fields of \<^verbatim>\<open>IGimbalEvent\<close> are the template strings
  \<^verbatim>\<open>`${offset}px`\<close>. \<open>Px n\<close> stands for the string made of the decimal text of the
  number \<open>n\<close> followed by \<^verbatim>\<open>px\<close>; \<open>px_value\<close> reads the number back and
  \<open>px_text\<close> spells the string out for the integral values below \<open>10^21\<close>, which
  JavaScript prints as plain decimal digits.
\<close>

datatype px = Px number

record IGimbalEvent =
  after :: px
  before :: px

fun px_value :: "px \<Rightarrow> number" where
  "px_value (Px n) = n"

definition digit :: "nat \<Rightarrow> char" where
  "digit d = ''0123456789'' ! d"

function string_of_nat :: "nat \<Rightarrow> string" where
  "string_of_nat n =
     (if n < 10 then [digit n] else string_of_nat (n div 10) @ [digit (n mod 10)])"
  by pat_completeness auto
termination
  by (relation "measure id") auto

declare string_of_nat.simps [simp del]

definition string_of_int :: "int \<Rightarrow> string" where
  "string_of_int i = (if i < 0 then ''-'' @ string_of_nat (nat (- i)) else string_of_nat (nat i))"

definition px_text :: "px \<Rightarrow> string option" where
  "px_text p =
     (let n = px_value p in
      if of_int \<lfloor>n\<rfloor> = n \<and> \<bar>n\<bar> < 10 ^ 21
      then Some (string_of_int \<lfloor>n\<rfloor> @ ''px'')
      else None)"

subsection \<open>utils.ts\<close>

text \<open>
  \<^verbatim>\<open>Math.round\<close> rounds to the nearest integer, a half towards plus infinity, and
  \<^verbatim>\<open>Math.floor\<close> rounds down; both results are exact.
\<close>

definition Math_round :: "number \<Rightarrow> number" where
  "Math_round x = of_int \<lfloor>x + 1 / 2\<rfloor>"

definition Math_floor :: "number \<Rightarrow> number" where
  "Math_floor x = of_int \<lfloor>x\<rfloor>"

definition getRangedValue :: "number \<Rightarrow> number \<Rightarrow> number \<Rightarrow> number" where
  "getRangedValue val maximum minimum =
     (if val > minimum then (if val < maximum then val else maximum) else minimum)"

text \<open>
  The part of an \<^verbatim>\<open>HTMLElement\<close> that \<^verbatim>\<open>getSizeAndOffset\<close> reads: the client
  size and the bounding rectangle's leading edge on both axes.
\<close>

record HTMLElement =
  clientHeight :: number
  clientWidth :: number
  rectTop :: number
  rectLeft :: number

definition getSizeAndOffset :: "bool \<Rightarrow> HTMLElement option \<Rightarrow> number \<times> number" where
  "getSizeAndOffset isVertical element =
     (case element of
        None \<Rightarrow> (0, 0)
      | Some e \<Rightarrow>
          (if isVertical then clientHeight e else clientWidth e,
           Math_floor (if isVertical then rectTop e else rectLeft e)))"

definition getPercentageFromPixels :: "number \<Rightarrow> number \<Rightarrow> number option" where
  "getPercentageFromPixels pxs limit =
     (if limit = 0 then None
      else Some (js_div (Math_round (js_mul (js_div pxs limit) 1000)) 10))"

definition getPixelsFromPercentage :: "number \<Rightarrow> number \<Rightarrow> number" where
  "getPixelsFromPercentage percentage limit =
     Math_round (js_mul limit (js_div percentage 100))"

definition getPreferredValue :: "number \<Rightarrow> number \<Rightarrow> bool \<Rightarrow> number" where
  "getPreferredValue valueA valueB preferLarger =
     (if preferLarger
      then (if valueA > valueB then valueA else valueB)
      else (if valueA > valueB then valueB else valueA))"

text \<open>
  The two local constants \<^verbatim>\<open>maximum\<close> and \<^verbatim>\<open>minimum\<close> of
  \<^verbatim>\<open>getAbsoluteBounds\<close>: the values selected from the pixel and the percent candidate,
  before they are validated against the limit and against zero.
\<close>

definition selectedMaximum ::
  "number \<Rightarrow> number option \<Rightarrow> number option \<Rightarrow> Prefer option \<Rightarrow> number" where
  "selectedMaximum absoluteLimit absoluteMaxPx relativeMaxPc preferredMax =
     getPreferredValue
       (getPixelsFromPercentage (case relativeMaxPc of None \<Rightarrow> 100 | Some v \<Rightarrow> v) absoluteLimit)
       (case absoluteMaxPx of None \<Rightarrow> absoluteLimit | Some v \<Rightarrow> v)
       (preferredMax = Some Pixels)"

definition selectedMinimum ::
  "number \<Rightarrow> number option \<Rightarrow> number option \<Rightarrow> Prefer option \<Rightarrow> number" where
  "selectedMinimum absoluteLimit absoluteMinPx relativeMinPc preferredMin =
     getPreferredValue
       (getPixelsFromPercentage (case relativeMinPc of None \<Rightarrow> 0 | Some v \<Rightarrow> v) absoluteLimit)
       (case absoluteMinPx of None \<Rightarrow> 0 | Some v \<Rightarrow> v)
       (preferredMin = Some Percent)"

definition getAbsoluteBounds ::
  "bool \<Rightarrow> number \<Rightarrow> number \<Rightarrow> number option \<Rightarrow> number option \<Rightarrow> number option \<Rightarrow>
   number option \<Rightarrow> Prefer option \<Rightarrow> Prefer option \<Rightarrow> number \<times> number \<times> number" where
  "getAbsoluteBounds isReverse absoluteLimit gimbalOffset absoluteMaxPx absoluteMinPx
     relativeMaxPc relativeMinPc preferredMax preferredMin =
     (let maximum = selectedMaximum absoluteLimit absoluteMaxPx relativeMaxPc preferredMax;
          minimum = selectedMinimum absoluteLimit absoluteMinPx relativeMinPc preferredMin;
          validatedMaximum = (if maximum > absoluteLimit then absoluteLimit else maximum);
          validatedMinimum = (if minimum > 0 then minimum else 0)
      in (if isReverse then absoluteLimit - validatedMinimum else validatedMaximum,
          if isReverse then absoluteLimit - validatedMaximum else validatedMinimum,
          gimbalOffset))"

definition getOffsets ::
  "number \<Rightarrow> number \<Rightarrow> number \<Rightarrow> number \<Rightarrow> number option \<Rightarrow> IGimbalEvent" where
  "getOffsets limit position maximum minimum factor =
     (let offset = js_sub (getRangedValue position maximum minimum)
                     (case factor of None \<Rightarrow> 0 | Some f \<Rightarrow> f)
      in \<lparr>after = Px (js_sub limit offset), before = Px offset\<rparr>)"

text \<open>The components of the resolved triple \<^verbatim>\<open>[maximum, minimum, offset]\<close>.\<close>

definition bounds_maximum :: "number \<times> number \<times> number \<Rightarrow> number" where
  "bounds_maximum b = fst b"

definition bounds_minimum :: "number \<times> number \<times> number \<Rightarrow> number" where
  "bounds_minimum b = fst (snd b)"

definition bounds_offset :: "number \<times> number \<times> number \<Rightarrow> number" where
  "bounds_offset b = snd (snd b)"

subsection \<open>gimbal.tsx\<close>

datatype MouseState =
  Mouse_ACTIVE | Mouse_IDLE | Mouse_GIMBAL_DOWN | Mouse_GLOBAL_DOWN | Mouse_GLOBAL_UP

datatype DragState = Drag_DRAG | Drag_IDLE | Drag_WAIT

text \<open>The props of the component that its handlers read.\<close>

record IGimbalProps =
  defaultPosition :: IGimbalRule
  direction :: Direction
  maximum :: IGimbalRule
  minimum :: IGimbalRule

text \<open>
  The mutable references of one component instance. \<open>waitTimers\<close> counts the callbacks
  that \<^verbatim>\<open>setActive\<close> has handed to \<^verbatim>\<open>setTimeout\<close> and that have not run yet.
  The cursor and the class name, which no handler reads back, are left out.
\<close>

record Refs =
  bound :: "number \<times> number \<times> number"
  click :: DragState
  limit :: "number \<times> number"
  mouse :: MouseState
  waitTimers :: nat

definition isReverse :: "Direction \<Rightarrow> bool" where
  "isReverse d = (d \<in> set [Horizontal_reverse, Vertical_reverse])"

definition isVertical :: "Direction \<Rightarrow> bool" where
  "isVertical d = (d \<in> set [Vertical, Vertical_reverse])"

text \<open>JavaScript truthiness of an optional number: \<^verbatim>\<open>undefined\<close> and \<open>0\<close> are falsy.\<close>

definition truthy :: "number option \<Rightarrow> bool" where
  "truthy v = (case v of None \<Rightarrow> False | Some x \<Rightarrow> x \<noteq> 0)"

definition getResizedValues :: "Refs \<Rightarrow> number \<Rightarrow> IGimbalEvent" where
  "getResizedValues r position =
     (case bound r of (mx, mn, factor) \<Rightarrow>
        getOffsets (fst (limit r)) (position - fst (limit r)) mx mn (Some factor))"

definition setActive :: "Refs \<Rightarrow> Refs" where
  "setActive r = r\<lparr>click := Drag_WAIT, mouse := Mouse_ACTIVE, waitTimers := Suc (waitTimers r)\<rparr>"

text \<open>The callback that \<^verbatim>\<open>setActive\<close> schedules after \<^verbatim>\<open>mouseTimeout\<close>.\<close>

definition waitTimeout :: "Refs \<Rightarrow> Refs" where
  "waitTimeout r = (if click r = Drag_WAIT then r\<lparr>click := Drag_IDLE\<rparr> else r)"

definition setIdle :: "Refs \<Rightarrow> Refs" where
  "setIdle r = r\<lparr>mouse := Mouse_IDLE\<rparr>"

text \<open>
  A handler returns the new references and the events it passes to \<^verbatim>\<open>onResize\<close>
  (for a movement, through \<^verbatim>\<open>requestAnimationFrame\<close>).
\<close>

definition handleDoubleClick :: "IGimbalProps \<Rightarrow> Refs \<Rightarrow> Refs \<times> IGimbalEvent list" where
  "handleDoubleClick props r0 =
     (let r = r0\<lparr>click := Drag_IDLE\<rparr>; d = defaultPosition props in
      if \<not> (truthy (percent d) \<or> truthy (pixels d)) then (r, [])
      else
        (let position =
               (case pixels d of
                  Some p \<Rightarrow> p
                | None \<Rightarrow>
                    getPixelsFromPercentage
                      (case percent d of Some pc \<Rightarrow> pc | None \<Rightarrow> 50) (fst (limit r)))
         in (r, [getResizedValues r position])))"

fun handleMouseEvent :: "MouseState \<Rightarrow> Refs \<Rightarrow> Refs" where
  "handleMouseEvent Mouse_GIMBAL_DOWN r = (if mouse r = Mouse_IDLE then setActive r else r)"
| "handleMouseEvent Mouse_GLOBAL_UP r =
     (if mouse r \<noteq> Mouse_ACTIVE then r
      else if click r = Drag_WAIT then r\<lparr>click := Drag_DRAG\<rparr>
      else setIdle r)"
| "handleMouseEvent Mouse_GLOBAL_DOWN r = (if mouse r = Mouse_ACTIVE then setIdle r else r)"
| "handleMouseEvent _ r = r"

text \<open>A movement carries \<^verbatim>\<open>clientX\<close> and \<^verbatim>\<open>clientY\<close>.\<close>

definition handleMouseMovement ::
  "IGimbalProps \<Rightarrow> number \<times> number \<Rightarrow> Refs \<Rightarrow> Refs \<times> IGimbalEvent list" where
  "handleMouseMovement props event r =
     (if mouse r = Mouse_IDLE then (r, [])
      else (r, [getResizedValues r (if isVertical (direction props) then snd event else fst event)]))"

definition handleWindowResize :: "IGimbalProps \<Rightarrow> HTMLElement option \<Rightarrow> Refs \<Rightarrow> Refs" where
  "handleWindowResize props anchorElement r =
     r\<lparr>limit := getSizeAndOffset (isVertical (direction props)) anchorElement\<rparr>"

text \<open>The effect that resolves the bounds; \<open>divEl\<close> is the handle's own element.\<close>

definition preferred :: "IGimbalRule \<Rightarrow> Prefer" where
  "preferred rule =
     (case prefer' rule of
        Some p \<Rightarrow> p
      | None \<Rightarrow> (if pixels rule = None then Percent else Pixels))"

definition boundsEffect :: "IGimbalProps \<Rightarrow> HTMLElement option \<Rightarrow> Refs \<Rightarrow> Refs" where
  "boundsEffect props divEl r =
     (let maxPreferred = preferred (maximum props);
          minPreferred = preferred (minimum props);
          divElOffset = fst (getSizeAndOffset (isVertical (direction props)) divEl);
          gimbalOffset = Math_floor (if divElOffset \<noteq> 0 then divElOffset / 2 else 0)
      in r\<lparr>bound :=
            getAbsoluteBounds (isReverse (direction props)) (fst (limit r) + gimbalOffset)
              gimbalOffset (pixels (maximum props)) (pixels (minimum props))
              (percent (maximum props)) (percent (minimum props))
              (Some maxPreferred) (Some minPreferred)\<rparr>)"

text \<open>
  The events the host delivers to one instance, and the step each one takes. A timer
  event runs one pending \<^verbatim>\<open>setActive\<close> callback; without a pending callback there
  is nothing to run.
\<close>

datatype Event =
  HandleDown | GlobalDown | GlobalUp | Move "number \<times> number" | DoubleClick | TimerFires

fun step :: "IGimbalProps \<Rightarrow> Event \<Rightarrow> Refs \<Rightarrow> Refs \<times> IGimbalEvent list" where
  "step props HandleDown r = (handleMouseEvent Mouse_GIMBAL_DOWN r, [])"
| "step props GlobalDown r = (handleMouseEvent Mouse_GLOBAL_DOWN r, [])"
| "step props GlobalUp r = (handleMouseEvent Mouse_GLOBAL_UP r, [])"
| "step props (Move e) r = handleMouseMovement props e r"
| "step props DoubleClick r = handleDoubleClick props r"
| "step props TimerFires r =
     (case waitTimers r of
        0 \<Rightarrow> (r, [])
      | Suc k \<Rightarrow> (waitTimeout (r\<lparr>waitTimers := k\<rparr>), []))"

fun run :: "IGimbalProps \<Rightarrow> Event list \<Rightarrow> Refs \<Rightarrow> Refs" where
  "run props [] r = r"
| "run props (e # es) r = run props es (fst (step props e r))"

text \<open>
  The references of a freshly mounted instance: both states idle, no timer pending,
  any measured limit and any resolved bounds.
\<close>

definition initial :: "Refs \<Rightarrow> bool" where
  "initial r = (click r = Drag_IDLE \<and> mouse r = Mouse_IDLE \<and> waitTimers r = 0)"

definition reachable :: "IGimbalProps \<Rightarrow> Refs \<Rightarrow> bool" where
  "reachable props r = (\<exists>r0 es. initial r0 \<and> r = run props es r0)"

section \<open>Rounding to a double\<close>

text \<open>
  The exponent found by \<open>binade\<close> brackets the number, so \<open>fl\<close> is within half a
  unit in the last place of its argument, and it leaves the integers below \<open>2^53\<close>
  unchanged.
\<close>

lemma bitlen_powi:
  assumes "0 < a"
  shows "2 powi (bitlen a - 1) \<le> (of_int a :: rat)" and "(of_int a :: rat) < 2 powi (bitlen a)"
proof -
  have pos: "1 \<le> bitlen a"
    using assms bitlen_eq_zero_iff [of a] bitlen_nonneg [of a] by linarith
  from bitlen_bounds [OF assms]
  have lo: "(2::int) ^ nat (bitlen a - 1) \<le> a" and hi: "a < (2::int) ^ nat (bitlen a)"
    by simp_all
  have "(of_int ((2::int) ^ nat (bitlen a - 1)) :: rat) \<le> of_int a"
    using lo by (simp only: of_int_le_iff)
  then show "2 powi (bitlen a - 1) \<le> (of_int a :: rat)"
    using pos by (simp add: power_int_nonneg_exp)
  have "(of_int a :: rat) < of_int ((2::int) ^ nat (bitlen a))"
    using hi by (simp only: of_int_less_iff)
  then show "(of_int a :: rat) < 2 powi (bitlen a)"
    using pos by (simp add: power_int_nonneg_exp)
qed

lemma binade_bounds:
  assumes "x \<noteq> 0"
  shows "2 powi (binade x) \<le> \<bar>x\<bar>" and "\<bar>x\<bar> < 2 powi (binade x + 1)"
proof -
  obtain a b where q: "quotient_of \<bar>x\<bar> = (a, b)"
    by (cases "quotient_of \<bar>x\<bar>")
  have b: "0 < b"
    using quotient_of_denom_pos [OF q] .
  have xab: "\<bar>x\<bar> = of_int a / of_int b"
    using quotient_of_div [OF q] .
  have a: "0 < a"
  proof -
    have "0 < \<bar>x\<bar>" using assms by simp
    then have "0 < (of_int a :: rat) / of_int b" by (simp only: xab)
    then show ?thesis using b by (simp add: zero_less_divide_iff)
  qed
  define k where "k = bitlen a - bitlen b"
  have upper: "\<bar>x\<bar> < 2 powi (k + 1)"
  proof -
    have "(of_int a :: rat) / of_int b < 2 powi (bitlen a) / 2 powi (bitlen b - 1)"
      using a b bitlen_powi [of a] bitlen_powi [of b]
      by (intro frac_less) simp_all
    also have "\<dots> = 2 powi (bitlen a - (bitlen b - 1))"
      by (rule power_int_diff [symmetric]) simp
    also have "bitlen a - (bitlen b - 1) = k + 1"
      by (simp add: k_def)
    finally show ?thesis by (simp only: xab)
  qed
  have lower: "2 powi (k - 1) < \<bar>x\<bar>"
  proof -
    have "2 powi (bitlen a - 1) / 2 powi (bitlen b) < (of_int a :: rat) / of_int b"
      using a b bitlen_powi [of a] bitlen_powi [of b]
      by (intro frac_less2) simp_all
    moreover have "2 powi (bitlen a - 1) / 2 powi (bitlen b) = (2::rat) powi (k - 1)"
    proof -
      have "2 powi (bitlen a - 1) / 2 powi (bitlen b) = (2::rat) powi (bitlen a - 1 - bitlen b)"
        by (rule power_int_diff [symmetric]) simp
      also have "bitlen a - 1 - bitlen b = k - 1"
        by (simp add: k_def)
      finally show ?thesis .
    qed
    ultimately show ?thesis by (simp only: xab)
  qed
  have bin: "binade x = (if 2 powi k \<le> \<bar>x\<bar> then k else k - 1)"
    by (simp add: binade_def q k_def Let_def)
  show "2 powi (binade x) \<le> \<bar>x\<bar>"
    using lower by (simp add: bin)
  show "\<bar>x\<bar> < 2 powi (binade x + 1)"
    using upper by (auto simp: bin)
qed

lemma round_even_near: "\<bar>of_int (round_even y) - y\<bar> \<le> 1 / 2"
proof -
  have "of_int \<lfloor>y\<rfloor> \<le> y" and "y < of_int \<lfloor>y\<rfloor> + 1"
    by linarith+
  then show ?thesis
    by (auto simp: round_even_def Let_def abs_le_iff)
qed

lemma round_even_of_int [simp]: "round_even (of_int n) = n"
  by (simp add: round_even_def)

lemma ulp_pos: "0 < ulp x"
  by (simp add: ulp_def)

lemma fl_error_ulp: "\<bar>fl x - x\<bar> \<le> ulp x / 2"
proof (cases "x = 0")
  case True
  then show ?thesis using ulp_pos [of x] by (simp add: fl_def)
next
  case False
  have "\<bar>of_int (round_even (x / ulp x)) - x / ulp x\<bar> \<le> 1 / 2"
    by (rule round_even_near)
  then have "\<bar>of_int (round_even (x / ulp x)) - x / ulp x\<bar> * ulp x \<le> 1 / 2 * ulp x"
    using ulp_pos [of x] by (intro mult_right_mono) simp_all
  moreover have "\<bar>of_int (round_even (x / ulp x)) - x / ulp x\<bar> * ulp x
      = \<bar>of_int (round_even (x / ulp x)) * ulp x - x\<bar>"
  proof -
    have "\<bar>of_int (round_even (x / ulp x)) - x / ulp x\<bar> * ulp x
        = \<bar>(of_int (round_even (x / ulp x)) - x / ulp x) * ulp x\<bar>"
      using ulp_pos [of x] by (simp add: abs_mult)
    also have "(of_int (round_even (x / ulp x)) - x / ulp x) * ulp x
        = of_int (round_even (x / ulp x)) * ulp x - x"
      using ulp_pos [of x] by (simp add: left_diff_distrib)
    finally show ?thesis .
  qed
  ultimately show ?thesis using False by (simp add: fl_def)
qed

lemma ulp_le:
  assumes x: "x \<noteq> 0"
  shows "ulp x \<le> max (\<bar>x\<bar> / 2 ^ 52) (2 * eta)"
proof (cases "- 1022 \<le> binade x")
  case True
  then have "ulp x = 2 powi (binade x - 52)"
    by (simp add: ulp_def max_def)
  also have "\<dots> = 2 powi (binade x) / 2 ^ 52"
    by (simp add: power_int_diff)
  also have "\<dots> \<le> \<bar>x\<bar> / 2 ^ 52"
    using binade_bounds(1) [OF x] by (simp add: divide_right_mono)
  finally show ?thesis by simp
next
  case False
  then have "ulp x = 2 powi (- 1074)"
    by (simp add: ulp_def max_def)
  also have "\<dots> = 2 * eta"
    by (simp add: power_int_minus_divide eta_def)
  finally show ?thesis by simp
qed

lemma eta_pos: "0 < eta"
  by (simp add: eta_def)

lemma eta_small: "eta \<le> 1 / 2 ^ 64"
  by (simp add: eta_def)

lemma fl_error: "\<bar>fl x - x\<bar> \<le> \<bar>x\<bar> / 2 ^ 53 + eta"
proof (cases "x = 0")
  case True
  then show ?thesis using eta_pos by (simp add: fl_def)
next
  case False
  have "\<bar>fl x - x\<bar> \<le> ulp x / 2"
    by (rule fl_error_ulp)
  also have "\<dots> \<le> max (\<bar>x\<bar> / 2 ^ 52) (2 * eta) / 2"
    using ulp_le [OF False] by simp
  also have "\<dots> \<le> \<bar>x\<bar> / 2 ^ 53 + eta"
    using eta_pos by (simp add: max_def)
  finally show ?thesis .
qed

lemma fl_of_int:
  assumes "\<bar>n\<bar> < 2 ^ 53"
  shows "fl (of_int n) = of_int n"
proof (cases "n = 0")
  case True
  then show ?thesis by (simp add: fl_def)
next
  case False
  let ?x = "of_int n :: rat"
  have x: "?x \<noteq> 0" using False by simp
  have "2 powi (binade ?x) \<le> \<bar>?x\<bar>"
    by (rule binade_bounds(1) [OF x])
  also have "\<bar>?x\<bar> < 2 powi 53"
  proof -
    have "(of_int \<bar>n\<bar> :: rat) < of_int (2 ^ 53)"
      using assms by (simp only: of_int_less_iff)
    then show ?thesis by simp
  qed
  finally have lt: "binade ?x < 53"
    by (rule power_int_le_imp_less_exp [rotated]) simp_all
  have ge: "0 \<le> binade ?x"
  proof -
    have "1 \<le> \<bar>?x\<bar>"
    proof -
      have "1 \<le> \<bar>n\<bar>" using False by simp
      then have "(of_int 1 :: rat) \<le> of_int \<bar>n\<bar>" by (simp only: of_int_le_iff)
      then show ?thesis by simp
    qed
    also have "\<bar>?x\<bar> < 2 powi (binade ?x + 1)"
      by (rule binade_bounds(2) [OF x])
    finally have *: "(2::rat) powi 0 < 2 powi (binade ?x + 1)" by simp
    have "0 < binade ?x + 1"
    proof (rule ccontr)
      assume "\<not> 0 < binade ?x + 1"
      then have "binade ?x + 1 \<le> 0" by simp
      then have "(2::rat) powi (binade ?x + 1) \<le> 2 powi 0"
        by (intro power_int_increasing) simp_all
      with * show False by simp
    qed
    then show ?thesis by simp
  qed
  from lt ge have "binade ?x - 52 = - int (nat (52 - binade ?x))"
    by simp
  then obtain m :: nat where m: "binade ?x - 52 = - int m" ..
  have u: "ulp ?x = 1 / 2 ^ m"
  proof -
    have "max (binade ?x) (- 1022) = binade ?x"
      using ge by simp
    then show ?thesis
      by (simp add: ulp_def m power_int_minus_divide)
  qed
  have "?x / ulp ?x = of_int (n * 2 ^ m)"
    by (simp add: u)
  then have "round_even (?x / ulp ?x) = n * 2 ^ m"
    by (simp only: round_even_of_int)
  then show ?thesis
    using x by (simp add: fl_def u)
qed

lemma Math_round_near: "\<bar>Math_round y - y\<bar> \<le> 1 / 2"
  unfolding Math_round_def by linarith

lemmas handler_defs =
  setActive_def setIdle_def waitTimeout_def handleMouseMovement_def handleDoubleClick_def

section \<open>Bounds resolution\<close>

text \<open>
  C1, as amended. For \<open>containerLimit = 500\<close>, \<open>maximum = {percent: 80}\<close>,
  \<open>minimum = {pixels: 50}\<close>, a direction that is not reversed and no \<open>prefer\<close>
  field, the component's defaulting picks \<open>percent\<close> for the maximum and \<open>pixels\<close>
  for the minimum, and the bounds resolution returns maximum 400 and minimum 0: with
  the \<open>pixels\<close> preference the minimum is the smaller of the pixel value 50 and the
  percent-derived value 0. The offset computation at position 30 within these bounds
  emits before \<^verbatim>\<open>30px\<close> and after \<^verbatim>\<open>470px\<close>.
\<close>

theorem scenario_bounds:
  "bound (boundsEffect
      \<lparr>defaultPosition = \<lparr>percent = None, pixels = None, prefer' = None\<rparr>,
       direction = Horizontal,
       maximum = \<lparr>percent = Some 80, pixels = None, prefer' = None\<rparr>,
       minimum = \<lparr>percent = None, pixels = Some 50, prefer' = None\<rparr>\<rparr>
      None
      \<lparr>bound = (0, 0, 0), click = Drag_IDLE, limit = (500, 0), mouse = Mouse_IDLE,
       waitTimers = 0\<rparr>) = (400, 0, 0)
   \<and> getAbsoluteBounds False 500 0 None (Some 50) (Some 80) None (Some Percent) (Some Pixels)
       = (400, 0, 0)
   \<and> getOffsets 500 30 400 0 (Some 0) = \<lparr>after = Px 470, before = Px 30\<rparr>
   \<and> px_text (Px 30) = Some ''30px'' \<and> px_text (Px 470) = Some ''470px''"
  by code_simp

text \<open>
  C1, as stated, fails: with the defaulted preferences the resolved minimum is not 50,
  and the offset computation at position 30 within the resolved bounds does not emit
  \<^verbatim>\<open>50px\<close> as the before size.
\<close>

theorem scenario_bounds_counterexample:
  "preferred \<lparr>percent = Some 80, pixels = None, prefer' = None\<rparr> = Percent
   \<and> preferred \<lparr>percent = None, pixels = Some 50, prefer' = None\<rparr> = Pixels
   \<and> bounds_minimum
        (getAbsoluteBounds False 500 0 None (Some 50) (Some 80) None (Some Percent) (Some Pixels))
       \<noteq> 50
   \<and> before (getOffsets 500 30
        (bounds_maximum
          (getAbsoluteBounds False 500 0 None (Some 50) (Some 80) None (Some Percent) (Some Pixels)))
        (bounds_minimum
          (getAbsoluteBounds False 500 0 None (Some 50) (Some 80) None (Some Percent) (Some Pixels)))
        (Some (bounds_offset
          (getAbsoluteBounds False 500 0 None (Some 50) (Some 80) None (Some Percent) (Some Pixels)))))
       \<noteq> Px 50"
  by code_simp

text \<open>
  C2, as amended. The maximum selected from the percent-derived candidate and the pixel
  candidate is the larger of the two when \<open>preferMax\<close> is \<open>pixels\<close>, and the
  smaller of the two for every other value of \<open>preferMax\<close>; the resolved maximum
  of a direction that is not reversed is that value, capped at the limit.
\<close>

theorem selectedMaximum_by_preference:
  "selectedMaximum L mpx mpc pref =
     (if pref = Some Pixels
      then max (getPixelsFromPercentage (case mpc of None \<Rightarrow> 100 | Some v \<Rightarrow> v) L)
               (case mpx of None \<Rightarrow> L | Some v \<Rightarrow> v)
      else min (getPixelsFromPercentage (case mpc of None \<Rightarrow> 100 | Some v \<Rightarrow> v) L)
               (case mpx of None \<Rightarrow> L | Some v \<Rightarrow> v))
   \<and> bounds_maximum (getAbsoluteBounds False L off mpx npx mpc npc pref npref) =
       min L (selectedMaximum L mpx mpc pref)"
  by (auto simp: selectedMaximum_def getPreferredValue_def getAbsoluteBounds_def
      bounds_maximum_def Let_def max_def min_def)

text \<open>
  C2, as stated, fails: with limit 500, a pixel candidate of 500, 80 percent and the
  \<open>percent\<close> preference, the selected maximum is 400, not the larger candidate 500.
\<close>

theorem selectedMaximum_counterexample:
  "selectedMaximum 500 (Some 500) (Some 80) (Some Percent)
     \<noteq> max (getPixelsFromPercentage 80 500) 500"
  by code_simp

text \<open>
  C3, as amended. For every limit that is not negative and every rule set whose
  selected minimum does not exceed its selected maximum, whose selected maximum is
  not negative and whose selected minimum does not exceed the limit, the resolved
  bounds of either direction satisfy \<open>0 \<le> minimum \<le> maximum \<le> limit\<close>.
\<close>

theorem resolved_bounds_ordered:
  assumes "0 \<le> L"
    and "selectedMinimum L npx npc npref \<le> selectedMaximum L mpx mpc pref"
    and "0 \<le> selectedMaximum L mpx mpc pref"
    and "selectedMinimum L npx npc npref \<le> L"
  shows "0 \<le> bounds_minimum (getAbsoluteBounds rv L off mpx npx mpc npc pref npref)
    \<and> bounds_minimum (getAbsoluteBounds rv L off mpx npx mpc npc pref npref)
        \<le> bounds_maximum (getAbsoluteBounds rv L off mpx npx mpc npc pref npref)
    \<and> bounds_maximum (getAbsoluteBounds rv L off mpx npx mpc npc pref npref) \<le> L"
  using assms
  by (cases rv) (simp_all add: getAbsoluteBounds_def bounds_maximum_def bounds_minimum_def Let_def)

text \<open>
  The theorem at limit 500 with \<open>maximum = {percent: 80}\<close> and
  \<open>minimum = {pixels: 50, prefer: percent}\<close>: the bounds are 400 and 50.
\<close>

theorem resolved_bounds_ordered_witness:
  "(0::number) \<le> 500
   \<and> selectedMinimum 500 (Some 50) None (Some Percent)
       \<le> selectedMaximum 500 None (Some 80) (Some Percent)
   \<and> 0 \<le> selectedMaximum 500 None (Some 80) (Some Percent)
   \<and> selectedMinimum 500 (Some 50) None (Some Percent) \<le> 500
   \<and> getAbsoluteBounds False 500 0 None (Some 50) (Some 80) None (Some Percent) (Some Percent)
       = (400, 50, 0)
   \<and> 0 \<le> bounds_minimum
        (getAbsoluteBounds False 500 0 None (Some 50) (Some 80) None (Some Percent) (Some Percent))
   \<and> bounds_minimum
        (getAbsoluteBounds False 500 0 None (Some 50) (Some 80) None (Some Percent) (Some Percent))
       \<le> bounds_maximum
        (getAbsoluteBounds False 500 0 None (Some 50) (Some 80) None (Some Percent) (Some Percent))
   \<and> bounds_maximum
        (getAbsoluteBounds False 500 0 None (Some 50) (Some 80) None (Some Percent) (Some Percent))
       \<le> 500"
proof -
  have a: "selectedMinimum 500 (Some 50) None (Some Percent) = 50"
    by code_simp
  have b: "selectedMaximum 500 None (Some 80) (Some Percent) = 400"
    by code_simp
  have c: "getAbsoluteBounds False 500 0 None (Some 50) (Some 80) None (Some Percent) (Some Percent)
       = (400, 50, 0)"
    by code_simp
  show ?thesis
    using resolved_bounds_ordered
      [of 500 "Some 50" None "Some Percent" None "Some 80" "Some Percent" False 0]
    by (simp add: a b c)
qed

text \<open>
  C3, as stated, fails: at limit 500 with \<open>maximum = {pixels: 700}\<close> and
  \<open>minimum = {pixels: 600, prefer: percent}\<close> the selected minimum 600 does not
  exceed the selected maximum 700, yet the resolved bounds are maximum 500 and
  minimum 600: only the maximum is capped at the limit.
\<close>

theorem resolved_bounds_counterexample:
  "(0::number) \<le> 500
   \<and> selectedMinimum 500 (Some 600) None (Some Percent)
       \<le> selectedMaximum 500 (Some 700) None (Some Pixels)
   \<and> getAbsoluteBounds False 500 0 (Some 700) (Some 600) None None (Some Pixels) (Some Percent)
       = (500, 600, 0)
   \<and> \<not> bounds_minimum
          (getAbsoluteBounds False 500 0 (Some 700) (Some 600) None None (Some Pixels) (Some Percent))
        \<le> bounds_maximum
          (getAbsoluteBounds False 500 0 (Some 700) (Some 600) None None (Some Pixels) (Some Percent))"
  by code_simp


section \<open>The range clamp and the offsets\<close>

text \<open>
  C4, as amended. With inverted bounds (minimum above maximum) the range clamp
  returns the minimum for every value up to the minimum, and the maximum for every
  value above the minimum.
\<close>

theorem getRangedValue_inverted:
  "mn > mx \<Longrightarrow> getRangedValue val mx mn = (if val > mn then mx else mn)"
  by (simp add: getRangedValue_def)

text \<open>The theorem at maximum 3, minimum 5 and the value 10.\<close>

theorem getRangedValue_inverted_witness:
  "(5::number) > 3 \<and> getRangedValue 10 3 5 = (if (10::number) > 5 then 3 else 5)"
  using getRangedValue_inverted [of 3 5 10] by simp

text \<open>
  C4, as stated, fails: with maximum 3 and minimum 5 the value 10 is clamped to the
  maximum 3, not to the minimum.
\<close>

theorem getRangedValue_inverted_counterexample:
  "(5::number) > 3 \<and> getRangedValue 10 3 5 \<noteq> 5"
  by (simp add: getRangedValue_def)

text \<open>
  The before size is the rounded difference of the clamped position and the factor, and
  the after size is the rounded difference of the limit and the before size.
\<close>

lemma getOffsets_before:
  "px_value (before (getOffsets L position mx mn factor))
     = fl (getRangedValue position mx mn - (case factor of None \<Rightarrow> 0 | Some f \<Rightarrow> f))"
  by (simp add: getOffsets_def js_sub_def Let_def)

lemma getOffsets_after:
  "px_value (after (getOffsets L position mx mn factor))
     = fl (L - px_value (before (getOffsets L position mx mn factor)))"
  by (simp add: getOffsets_def js_sub_def Let_def)

lemma getOffsets_drift:
  "\<bar>px_value (before (getOffsets L position mx mn factor))
      + px_value (after (getOffsets L position mx mn factor)) - L\<bar>
   \<le> \<bar>L - px_value (before (getOffsets L position mx mn factor))\<bar> / 2 ^ 53 + eta"
proof -
  let ?b = "px_value (before (getOffsets L position mx mn factor))"
  have "\<bar>fl (L - ?b) - (L - ?b)\<bar> \<le> \<bar>L - ?b\<bar> / 2 ^ 53 + eta"
    by (rule fl_error)
  moreover have "?b + fl (L - ?b) - L = fl (L - ?b) - (L - ?b)"
    by simp
  ultimately show ?thesis
    by (simp only: getOffsets_after)
qed

lemma Ints_bounded_cases:
  fixes x :: rat
  assumes "x \<in> \<int>" and "\<bar>x\<bar> \<le> 2 ^ 51"
  obtains n :: int where "x = of_int n" and "\<bar>n\<bar> \<le> 2 ^ 51"
proof -
  from assms(1) obtain n :: int where n: "x = of_int n"
    by (rule Ints_cases)
  have "(of_int \<bar>n\<bar> :: rat) \<le> of_int (2 ^ 51)"
    using assms(2) by (simp add: n)
  then have "\<bar>n\<bar> \<le> 2 ^ 51"
    by (simp only: of_int_le_iff)
  with n show ?thesis by (rule that)
qed

lemma getOffsets_exact:
  assumes L: "L \<in> \<int>" "\<bar>L\<bar> \<le> 2 ^ 51"
    and v: "getRangedValue position mx mn \<in> \<int>" "\<bar>getRangedValue position mx mn\<bar> \<le> 2 ^ 51"
    and f: "(case factor of None \<Rightarrow> 0 | Some f \<Rightarrow> f) \<in> \<int>"
           "\<bar>case factor of None \<Rightarrow> 0 | Some f \<Rightarrow> f\<bar> \<le> 2 ^ 51"
  shows "px_value (before (getOffsets L position mx mn factor))
      + px_value (after (getOffsets L position mx mn factor)) = L"
proof -
  from L obtain l :: int where l: "L = of_int l" "\<bar>l\<bar> \<le> 2 ^ 51"
    by (rule Ints_bounded_cases)
  from v obtain k :: int where k: "getRangedValue position mx mn = of_int k" "\<bar>k\<bar> \<le> 2 ^ 51"
    by (rule Ints_bounded_cases)
  from f obtain g :: int where g: "(case factor of None \<Rightarrow> 0 | Some f \<Rightarrow> f) = of_int g"
      "\<bar>g\<bar> \<le> 2 ^ 51"
    by (rule Ints_bounded_cases)
  have "\<bar>k - g\<bar> < 2 ^ 53"
    using k(2) g(2) by simp
  then have b: "px_value (before (getOffsets L' position mx mn factor)) = of_int (k - g)" for L'
    using fl_of_int [of "k - g"] by (simp add: getOffsets_before k(1) g(1))
  have "\<bar>l - (k - g)\<bar> < 2 ^ 53"
    using l(2) k(2) g(2) by simp
  then have "px_value (after (getOffsets L position mx mn factor)) = of_int (l - (k - g))"
    using fl_of_int [of "l - (k - g)"] by (simp add: getOffsets_after b l(1))
  with b show ?thesis
    by (simp add: l(1))
qed

text \<open>
  C7, as amended. For every emitted event the after size is the double nearest to the
  limit minus the before size, so the sum of the two sizes differs from the limit by
  at most the rounding of that one subtraction: \<open>\<bar>limit - before\<bar> / 2^53\<close>, plus half
  of the smallest subnormal. The sum is exactly the limit whenever the limit, the
  clamped position and the factor are integers of magnitude at most \<open>2^51\<close>, as the
  pixel measurements of the component are.
\<close>

theorem getOffsets_sum:
  "\<bar>px_value (before (getOffsets L position mx mn factor))
      + px_value (after (getOffsets L position mx mn factor)) - L\<bar>
     \<le> \<bar>L - px_value (before (getOffsets L position mx mn factor))\<bar> / 2 ^ 53 + eta
   \<and> (L \<in> \<int> \<and> \<bar>L\<bar> \<le> 2 ^ 51
       \<and> getRangedValue position mx mn \<in> \<int> \<and> \<bar>getRangedValue position mx mn\<bar> \<le> 2 ^ 51
       \<and> (case factor of None \<Rightarrow> 0 | Some f \<Rightarrow> f) \<in> \<int>
       \<and> \<bar>case factor of None \<Rightarrow> 0 | Some f \<Rightarrow> f\<bar> \<le> 2 ^ 51
      \<longrightarrow> px_value (before (getOffsets L position mx mn factor))
          + px_value (after (getOffsets L position mx mn factor)) = L)"
  using getOffsets_drift [of L position mx mn factor] getOffsets_exact [of L position mx mn factor]
  by blast

text \<open>The theorem at limit 500, position 30 within the bounds 0 and 400, and factor 10.\<close>

theorem getOffsets_sum_witness:
  "(500::number) \<in> \<int> \<and> \<bar>500::number\<bar> \<le> 2 ^ 51
   \<and> getRangedValue 30 400 0 = 30
   \<and> getRangedValue 30 400 0 \<in> \<int> \<and> \<bar>getRangedValue 30 400 0\<bar> \<le> 2 ^ 51
   \<and> (case Some (10::number) of None \<Rightarrow> 0 | Some f \<Rightarrow> f) \<in> \<int>
   \<and> \<bar>case Some (10::number) of None \<Rightarrow> 0 | Some f \<Rightarrow> f\<bar> \<le> 2 ^ 51
   \<and> px_value (before (getOffsets 500 30 400 0 (Some 10)))
       + px_value (after (getOffsets 500 30 400 0 (Some 10))) = 500"
proof -
  have v: "getRangedValue 30 400 0 = 30"
    by (simp add: getRangedValue_def)
  show ?thesis
    using getOffsets_sum [of 500 30 400 0 "Some 10"] by (simp add: v)
qed

text \<open>
  C7, as stated, fails: with the doubles nearest to 0.9 for the limit and the maximum
  and to 0.3 for the position, the before size is 0.3 and the after size is
  0.6000000000000001, the double above the one nearest to 0.6; neither their exact sum
  nor their sum in double arithmetic is the limit.
\<close>

theorem getOffsets_sum_counterexample:
  "px_value (before (getOffsets (fl (9 / 10)) (fl (3 / 10)) (fl (9 / 10)) 0 (Some 0)))
     + px_value (after (getOffsets (fl (9 / 10)) (fl (3 / 10)) (fl (9 / 10)) 0 (Some 0)))
     \<noteq> fl (9 / 10)
   \<and> js_add (px_value (before (getOffsets (fl (9 / 10)) (fl (3 / 10)) (fl (9 / 10)) 0 (Some 0))))
        (px_value (after (getOffsets (fl (9 / 10)) (fl (3 / 10)) (fl (9 / 10)) 0 (Some 0))))
     \<noteq> fl (9 / 10)"
  by code_simp

section \<open>Percent and pixels\<close>

text \<open>
  The rounding of the double operations decides both conversions: 29 percent of 50 is
  14.499999999999998 in doubles and rounds to 14, and 201 of 400 is
  502.49999999999994 tenths of a percent and rounds to 50.2 percent.
\<close>

lemma getPixelsFromPercentage_29_50: "getPixelsFromPercentage 29 50 = 14"
  by code_simp

lemma getPercentageFromPixels_201_400: "getPercentageFromPixels 201 400 = Some (fl (502 / 10))"
  by code_simp

lemma fl_error_bounded:
  assumes "\<bar>x\<bar> \<le> B"
  shows "\<bar>fl x - x\<bar> \<le> B / 2 ^ 53 + eta"
proof -
  have "\<bar>fl x - x\<bar> \<le> \<bar>x\<bar> / 2 ^ 53 + eta"
    by (rule fl_error)
  moreover have "\<bar>x\<bar> / 2 ^ 53 \<le> B / 2 ^ 53"
    using assms by (simp add: divide_right_mono)
  ultimately show ?thesis by linarith
qed

lemma roundtrip_bound:
  assumes L: "0 < L" and p0: "0 \<le> p" and pL: "p \<le> L"
    and pc: "getPercentageFromPixels p L = Some pc"
  shows "\<bar>getPixelsFromPercentage pc L - p\<bar> \<le> 1 / 2 + L / 2000 + L / 2 ^ 49 + eta"
proof -
  define a where "a = p / L"
  define d1 where "d1 = fl a"
  define d2 where "d2 = fl (d1 * 1000)"
  define r where "r = Math_round d2"
  define d3 where "d3 = fl (r / 10)"
  define d4 where "d4 = fl (d3 / 100)"
  define d5 where "d5 = fl (L * d4)"
  note eta_pos eta_small
  have pc_eq: "pc = d3"
    using L pc
    by (simp add: getPercentageFromPixels_def js_div_def js_mul_def a_def d1_def d2_def
        r_def d3_def)
  have res: "getPixelsFromPercentage pc L = Math_round d5"
    by (simp add: getPixelsFromPercentage_def js_mul_def js_div_def pc_eq d4_def d5_def)
  have a0: "0 \<le> a" and a1: "a \<le> 1"
    using L p0 pL by (simp_all add: a_def)
  have ab: "\<bar>a\<bar> \<le> 1"
    using a0 a1 by simp
  have e1: "\<bar>d1 - a\<bar> \<le> 1 / 2 ^ 53 + eta"
    unfolding d1_def using ab by (rule fl_error_bounded)
  have d1b: "\<bar>d1 * 1000\<bar> \<le> 2000"
    using e1 a0 a1 eta_small unfolding abs_le_iff by (simp; linarith)
  have e2: "\<bar>d2 - d1 * 1000\<bar> \<le> 2000 / 2 ^ 53 + eta"
    unfolding d2_def using d1b by (rule fl_error_bounded)
  have E2: "\<bar>d2 - 1000 * a\<bar> \<le> 1 / 2 ^ 41"
    using e1 e2 eta_small eta_pos unfolding abs_le_iff by (simp; linarith)
  have rn: "\<bar>r - d2\<bar> \<le> 1 / 2"
    unfolding r_def by (rule Math_round_near)
  have rb: "\<bar>r / 10\<bar> \<le> 101"
    using rn E2 a0 a1 unfolding abs_le_iff by (simp; linarith)
  have e3: "\<bar>d3 - r / 10\<bar> \<le> 101 / 2 ^ 53 + eta"
    unfolding d3_def using rb by (rule fl_error_bounded)
  have d3b: "\<bar>d3 / 100\<bar> \<le> 2"
    using e3 rb eta_small unfolding abs_le_iff by (simp; linarith)
  have e4: "\<bar>d4 - d3 / 100\<bar> \<le> 2 / 2 ^ 53 + eta"
    unfolding d4_def using d3b by (rule fl_error_bounded)
  have E4: "\<bar>d4 - r / 1000\<bar> \<le> 1 / 2 ^ 51"
    using e3 e4 eta_small eta_pos unfolding abs_le_iff by (simp; linarith)
  have d4b: "\<bar>d4\<bar> \<le> 2"
    using E4 rb unfolding abs_le_iff by (simp; linarith)
  have Ld4: "\<bar>L * d4\<bar> \<le> 2 * L"
  proof -
    have "L * \<bar>d4\<bar> \<le> L * 2"
      using L d4b by (intro mult_left_mono) simp_all
    then show ?thesis using L by (simp add: abs_mult mult.commute)
  qed
  have e5: "\<bar>d5 - L * d4\<bar> \<le> 2 * L / 2 ^ 53 + eta"
    unfolding d5_def using Ld4 by (rule fl_error_bounded)
  have m4: "\<bar>L * d4 - L * r / 1000\<bar> \<le> L / 2 ^ 51"
  proof -
    have "L * \<bar>d4 - r / 1000\<bar> \<le> L * (1 / 2 ^ 51)"
      using L E4 by (intro mult_left_mono) simp_all
    moreover have "L * d4 - L * r / 1000 = L * (d4 - r / 1000)"
      by (simp add: right_diff_distrib)
    ultimately show ?thesis using L by (simp add: abs_mult)
  qed
  have m2: "\<bar>L * r / 1000 - p\<bar> \<le> L / 2000 + L / (1000 * 2 ^ 41)"
  proof -
    have t: "\<bar>r - 1000 * a\<bar> \<le> 1 / 2 + 1 / 2 ^ 41"
      using rn E2 unfolding abs_le_iff by (simp; linarith)
    have eq: "L * r / 1000 - p = L / 1000 * (r - 1000 * a)"
      using L by (simp add: a_def right_diff_distrib)
    have "\<bar>L * r / 1000 - p\<bar> = L / 1000 * \<bar>r - 1000 * a\<bar>"
      unfolding eq using L by (simp add: abs_mult)
    also have "\<dots> \<le> L / 1000 * (1 / 2 + 1 / 2 ^ 41)"
      using L t by (intro mult_left_mono) simp_all
    also have "\<dots> = L / 2000 + L / (1000 * 2 ^ 41)"
      by (simp add: distrib_left)
    finally show ?thesis .
  qed
  have bn: "\<bar>Math_round d5 - d5\<bar> \<le> 1 / 2"
    by (rule Math_round_near)
  have "L / 2 ^ 52 + L / 2 ^ 51 + L / (1000 * 2 ^ 41) \<le> L / 2 ^ 49"
    using L by simp
  with bn e5 m4 m2 show ?thesis
    unfolding res abs_le_iff by (simp; linarith)
qed

text \<open>
  C9, as amended. For every limit above 0 and every \<open>p\<close> with \<open>0 \<le> p \<le> limit\<close>,
  converting \<open>p\<close> to a percentage and back yields a value within
  \<open>1/2 + limit/2000 + limit/2^49\<close>, plus half of the smallest subnormal, of \<open>p\<close>: half
  a pixel from the rounding to whole pixels, half a tenth of a percent of the limit
  from the rounding of the percentage, and the rounding of the five double operations.
  Hence the result is within one pixel of \<open>p\<close> for every limit up to 999.
\<close>

theorem roundtrip_within:
  assumes "0 < L" and "0 \<le> p" and "p \<le> L" and "getPercentageFromPixels p L = Some pc"
  shows "\<bar>getPixelsFromPercentage pc L - p\<bar> \<le> 1 / 2 + L / 2000 + L / 2 ^ 49 + eta
         \<and> (L \<le> 999 \<longrightarrow> \<bar>getPixelsFromPercentage pc L - p\<bar> \<le> 1)"
proof -
  have b: "\<bar>getPixelsFromPercentage pc L - p\<bar> \<le> 1 / 2 + L / 2000 + L / 2 ^ 49 + eta"
    using assms by (rule roundtrip_bound)
  have "1 / 2 + L / 2000 + L / 2 ^ 49 + eta \<le> 1" if "L \<le> 999"
    using that eta_small by (simp; linarith)
  with b show ?thesis by auto
qed

text \<open>
  The theorem at limit 500 and \<open>p = 123\<close>, whose percentage is the double nearest to
  24.6 and which comes back as 123.
\<close>

theorem roundtrip_within_witness:
  "(0::number) < 500 \<and> (0::number) \<le> 123 \<and> (123::number) \<le> 500
   \<and> getPercentageFromPixels 123 500 = Some (fl (246 / 10))
   \<and> getPixelsFromPercentage (fl (246 / 10)) 500 = 123
   \<and> \<bar>getPixelsFromPercentage (fl (246 / 10)) 500 - 123\<bar> \<le> 1 / 2 + 500 / 2000 + 500 / 2 ^ 49 + eta
   \<and> (500::number) \<le> 999 \<and> \<bar>getPixelsFromPercentage (fl (246 / 10)) 500 - 123\<bar> \<le> 1"
proof -
  have h: "getPercentageFromPixels 123 500 = Some (fl (246 / 10))"
    by code_simp
  have g: "getPixelsFromPercentage (fl (246 / 10)) 500 = 123"
    by code_simp
  have "0 \<le> 1 / 2 + 500 / 2000 + 500 / 2 ^ 49 + eta"
    using eta_pos by simp
  then show ?thesis
    using h g roundtrip_within [of 500 123 "fl (246 / 10)"] by simp
qed

text \<open>
  C9, as stated, fails: at limit 10000 the 4 pixels are 0.04 percent, which rounds to
  0 percent, and 0 percent of the limit is 0 pixels, 4 pixels away from \<open>p\<close>.
\<close>

theorem roundtrip_counterexample:
  "(0::number) < 10000 \<and> (0::number) \<le> 4 \<and> (4::number) \<le> 10000
   \<and> getPercentageFromPixels 4 10000 = Some 0
   \<and> \<not> \<bar>getPixelsFromPercentage 0 10000 - 4\<bar> \<le> 1"
  by code_simp

text \<open>
  The term \<open>limit/2^49\<close> cannot be dropped: at limit 2 the double nearest to 0.499
  becomes 25 percent and comes back as 1, further from \<open>p\<close> than
  \<open>1/2 + limit/2000\<close>.
\<close>

lemma roundtrip_rounding_visible:
  "getPercentageFromPixels (fl (499 / 1000)) 2 = Some 25
   \<and> getPixelsFromPercentage 25 2 = 1
   \<and> 1 / 2 + 2 / 2000 < \<bar>1 - fl (499 / 1000)\<bar>"
  by code_simp

section \<open>The drag engine\<close>

text \<open>
  C5. The double click with \<open>default = {percent: 50}\<close> on a container of size 500
  with no other constraint, evaluated on the code: the effect resolves the bounds
  \<open>[500, 0, 0]\<close>, the default position is 250, \<^verbatim>\<open>getResizedValues\<close> subtracts
  \<^verbatim>\<open>limit.current[0]\<close>, the size 500 of the container, where the leading-edge
  offset is \<^verbatim>\<open>limit.current[1]\<close>, and the position \<open>-250\<close> is clamped to the
  minimum: the event is before \<^verbatim>\<open>0px\<close>, after \<^verbatim>\<open>500px\<close>.
\<close>

theorem double_click_half_default:
  "boundsEffect
      \<lparr>defaultPosition = \<lparr>percent = Some 50, pixels = None, prefer' = None\<rparr>,
       direction = Horizontal,
       maximum = \<lparr>percent = None, pixels = None, prefer' = None\<rparr>,
       minimum = \<lparr>percent = None, pixels = None, prefer' = None\<rparr>\<rparr>
      None
      \<lparr>bound = (0, 0, 0), click = Drag_IDLE, limit = (500, 0), mouse = Mouse_IDLE,
       waitTimers = 0\<rparr>
   = \<lparr>bound = (500, 0, 0), click = Drag_IDLE, limit = (500, 0), mouse = Mouse_IDLE,
       waitTimers = 0\<rparr>
   \<and> snd (handleDoubleClick
      \<lparr>defaultPosition = \<lparr>percent = Some 50, pixels = None, prefer' = None\<rparr>,
       direction = Horizontal,
       maximum = \<lparr>percent = None, pixels = None, prefer' = None\<rparr>,
       minimum = \<lparr>percent = None, pixels = None, prefer' = None\<rparr>\<rparr>
      \<lparr>bound = (500, 0, 0), click = Drag_IDLE, limit = (500, 0), mouse = Mouse_IDLE,
       waitTimers = 0\<rparr>)
   = [\<lparr>after = Px 500, before = Px 0\<rparr>]
   \<and> px_text (Px 0) = Some ''0px'' \<and> px_text (Px 500) = Some ''500px''"
  by code_simp

lemma step_mouse_tag:
  assumes "mouse r = Mouse_ACTIVE \<or> mouse r = Mouse_IDLE"
  shows "mouse (fst (step props e r)) = Mouse_ACTIVE \<or> mouse (fst (step props e r)) = Mouse_IDLE"
  using assms
  by (cases e) (auto simp: handler_defs Let_def split: nat.splits)

lemma run_mouse_tag:
  "mouse r = Mouse_ACTIVE \<or> mouse r = Mouse_IDLE \<Longrightarrow>
   mouse (run props es r) = Mouse_ACTIVE \<or> mouse (run props es r) = Mouse_IDLE"
proof (induction es arbitrary: r)
  case Nil
  then show ?case by simp
next
  case (Cons e es)
  from Cons.prems have "mouse (fst (step props e r)) = Mouse_ACTIVE
      \<or> mouse (fst (step props e r)) = Mouse_IDLE"
    by (rule step_mouse_tag)
  then show ?case
    using Cons.IH by simp
qed

lemma reachable_run:
  "initial r0 \<Longrightarrow> reachable props (run props es r0)"
  unfolding reachable_def by blast

lemma fresh_initial:
  "initial \<lparr>bound = (0, 0, 0), click = Drag_IDLE, limit = (0, 0), mouse = Mouse_IDLE,
     waitTimers = 0\<rparr>"
  by (simp add: initial_def)

lemma every_pair_reached:
  assumes "m = Mouse_ACTIVE \<or> m = Mouse_IDLE"
  shows "\<exists>r. reachable props r \<and> click r = c \<and> mouse r = m"
proof -
  let ?r0 = "\<lparr>bound = (0, 0, 0), click = Drag_IDLE, limit = (0, 0), mouse = Mouse_IDLE,
     waitTimers = 0\<rparr>"
  let ?es = "(case (c, m) of
               (Drag_IDLE, Mouse_ACTIVE) \<Rightarrow> [HandleDown, TimerFires]
             | (Drag_WAIT, Mouse_ACTIVE) \<Rightarrow> [HandleDown]
             | (Drag_DRAG, Mouse_ACTIVE) \<Rightarrow> [HandleDown, GlobalUp]
             | (Drag_IDLE, _) \<Rightarrow> []
             | (Drag_WAIT, _) \<Rightarrow> [HandleDown, GlobalDown]
             | (Drag_DRAG, _) \<Rightarrow> [HandleDown, GlobalUp, GlobalUp])"
  have "reachable props (run props ?es ?r0)"
    by (rule reachable_run [OF fresh_initial])
  moreover have "click (run props ?es ?r0) = c \<and> mouse (run props ?es ?r0) = m"
    using assms by (cases c) (auto simp: handler_defs)
  ultimately show ?thesis by blast
qed

text \<open>
  C6, as amended. In every state reachable from the initial Idle/Idle state by
  pointer-down, pointer-move, pointer-up, double-click and timer events the activation
  reference holds Active or Idle, never one of the event tags, and it is not tied to
  the drag state: every combination of a drag state with Active or Idle is reachable.
\<close>

theorem reachable_pairs:
  "(\<exists>r. reachable props r \<and> click r = c \<and> mouse r = m)
     \<longleftrightarrow> (m = Mouse_ACTIVE \<or> m = Mouse_IDLE)"
proof
  assume "\<exists>r. reachable props r \<and> click r = c \<and> mouse r = m"
  then obtain r0 es where "initial r0" and "m = mouse (run props es r0)"
    unfolding reachable_def by blast
  then show "m = Mouse_ACTIVE \<or> m = Mouse_IDLE"
    using run_mouse_tag [of r0 props es] by (simp add: initial_def)
next
  assume "m = Mouse_ACTIVE \<or> m = Mouse_IDLE"
  then show "\<exists>r. reachable props r \<and> click r = c \<and> mouse r = m"
    by (rule every_pair_reached)
qed

text \<open>The theorem at the pair of an idle drag state and an active gimbal.\<close>

theorem reachable_pairs_witness:
  "\<exists>r. reachable
          \<lparr>defaultPosition = \<lparr>percent = None, pixels = None, prefer' = None\<rparr>,
           direction = Horizontal,
           maximum = \<lparr>percent = None, pixels = None, prefer' = None\<rparr>,
           minimum = \<lparr>percent = None, pixels = None, prefer' = None\<rparr>\<rparr> r
        \<and> click r = Drag_IDLE \<and> mouse r = Mouse_ACTIVE"
  using reachable_pairs
    [of "\<lparr>defaultPosition = \<lparr>percent = None, pixels = None, prefer' = None\<rparr>,
           direction = Horizontal,
           maximum = \<lparr>percent = None, pixels = None, prefer' = None\<rparr>,
           minimum = \<lparr>percent = None, pixels = None, prefer' = None\<rparr>\<rparr>" Drag_IDLE Mouse_ACTIVE]
  by simp

text \<open>
  C6, as stated, fails: after a pointer-down on the handle and the timer of
  \<^verbatim>\<open>setActive\<close> the gimbal is still active while the drag state is idle again.
\<close>

theorem activation_iff_counterexample:
  "initial \<lparr>bound = (0, 0, 0), click = Drag_IDLE, limit = (500, 0), mouse = Mouse_IDLE,
       waitTimers = 0\<rparr>
   \<and> \<not> (mouse (run
        \<lparr>defaultPosition = \<lparr>percent = None, pixels = None, prefer' = None\<rparr>,
         direction = Horizontal,
         maximum = \<lparr>percent = None, pixels = None, prefer' = None\<rparr>,
         minimum = \<lparr>percent = None, pixels = None, prefer' = None\<rparr>\<rparr>
        [HandleDown, TimerFires]
        \<lparr>bound = (0, 0, 0), click = Drag_IDLE, limit = (500, 0), mouse = Mouse_IDLE,
       waitTimers = 0\<rparr>) = Mouse_ACTIVE
     \<longleftrightarrow>
       click (run
        \<lparr>defaultPosition = \<lparr>percent = None, pixels = None, prefer' = None\<rparr>,
         direction = Horizontal,
         maximum = \<lparr>percent = None, pixels = None, prefer' = None\<rparr>,
         minimum = \<lparr>percent = None, pixels = None, prefer' = None\<rparr>\<rparr>
        [HandleDown, TimerFires]
        \<lparr>bound = (0, 0, 0), click = Drag_IDLE, limit = (500, 0), mouse = Mouse_IDLE,
       waitTimers = 0\<rparr>) \<noteq> Drag_IDLE)"
  by (simp add: initial_def handler_defs)

text \<open>
  C10. When \<open>default.percent\<close> and \<open>default.pixels\<close> are each undefined or 0, a
  double click emits no event and changes nothing but the drag state, which it
  resets to idle.
\<close>

theorem double_click_without_default:
  assumes "percent (defaultPosition props) = None \<or> percent (defaultPosition props) = Some 0"
    and "pixels (defaultPosition props) = None \<or> pixels (defaultPosition props) = Some 0"
  shows "handleDoubleClick props r = (r\<lparr>click := Drag_IDLE\<rparr>, [])"
  using assms by (auto simp: handleDoubleClick_def truthy_def Let_def)

text \<open>The theorem at \<open>default = {pixels: 0}\<close>, during a drag.\<close>

theorem double_click_without_default_witness:
  "(percent \<lparr>percent = None, pixels = Some 0, prefer' = None\<rparr> = None
      \<or> percent \<lparr>percent = None, pixels = Some 0, prefer' = None\<rparr> = Some 0)
   \<and> (pixels \<lparr>percent = None, pixels = Some 0, prefer' = None\<rparr> = None
      \<or> pixels \<lparr>percent = None, pixels = Some 0, prefer' = None\<rparr> = Some 0)
   \<and> handleDoubleClick
     \<lparr>defaultPosition = \<lparr>percent = None, pixels = Some 0, prefer' = None\<rparr>,
      direction = Horizontal,
      maximum = \<lparr>percent = None, pixels = None, prefer' = None\<rparr>,
      minimum = \<lparr>percent = None, pixels = None, prefer' = None\<rparr>\<rparr>
     \<lparr>bound = (500, 0, 0), click = Drag_DRAG, limit = (500, 0), mouse = Mouse_ACTIVE,
      waitTimers = 0\<rparr>
   = (\<lparr>bound = (500, 0, 0), click = Drag_IDLE, limit = (500, 0), mouse = Mouse_ACTIVE,
      waitTimers = 0\<rparr>, [])"
  using double_click_without_default
    [of "\<lparr>defaultPosition = \<lparr>percent = None, pixels = Some 0, prefer' = None\<rparr>,
      direction = Horizontal,
      maximum = \<lparr>percent = None, pixels = None, prefer' = None\<rparr>,
      minimum = \<lparr>percent = None, pixels = None, prefer' = None\<rparr>\<rparr>"
     "\<lparr>bound = (500, 0, 0), click = Drag_DRAG, limit = (500, 0), mouse = Mouse_ACTIVE,
      waitTimers = 0\<rparr>"]
  by simp

text \<open>
  Every event that a step of the engine emits adds up to the measured size of the
  container, up to the rounding of one subtraction.
\<close>

lemma getResizedValues_drift:
  "\<bar>px_value (before (getResizedValues r pos)) + px_value (after (getResizedValues r pos))
      - fst (limit r)\<bar>
     \<le> \<bar>fst (limit r) - px_value (before (getResizedValues r pos))\<bar> / 2 ^ 53 + eta"
proof (cases "bound r")
  case (fields mx mn f)
  show ?thesis
    unfolding getResizedValues_def fields prod.case by (rule getOffsets_drift)
qed

lemma emitted_event_source:
  "ev \<in> set (snd (step props e r)) \<Longrightarrow>
   \<exists>r' pos. ev = getResizedValues r' pos \<and> limit r' = limit r"
proof (cases e)
  case (Move xy)
  assume "ev \<in> set (snd (step props e r))"
  with Move have "ev = getResizedValues r (if isVertical (direction props) then snd xy else fst xy)"
    by (simp add: handleMouseMovement_def split: if_splits)
  then show ?thesis by blast
next
  case DoubleClick
  assume "ev \<in> set (snd (step props e r))"
  with DoubleClick obtain pos where "ev = getResizedValues (r\<lparr>click := Drag_IDLE\<rparr>) pos"
    by (auto simp: handleDoubleClick_def Let_def split: if_splits)
  moreover have "limit (r\<lparr>click := Drag_IDLE\<rparr>) = limit r"
    by simp
  ultimately show ?thesis by blast
qed (auto split: nat.splits)

lemma emitted_events_drift:
  assumes "ev \<in> set (snd (step props e r))"
  shows "\<bar>px_value (before ev) + px_value (after ev) - fst (limit r)\<bar>
     \<le> \<bar>fst (limit r) - px_value (before ev)\<bar> / 2 ^ 53 + eta"
proof -
  from emitted_event_source [OF assms]
  obtain r' pos where ev: "ev = getResizedValues r' pos" and l: "limit r' = limit r"
    by blast
  show ?thesis
    unfolding ev l [symmetric] by (rule getResizedValues_drift)
qed

end
